theory Spec2Isabelle
  imports Complex_Main "HOL-Library.AList"
begin

section \<open>The clustering core of xapian-core/cluster/cluster.cc\<close>

subsection \<open>Doubles\<close>

text \<open>
  The weights of the source are C++ \<open>double\<close>s.  A double is modelled as a real number
  or one of the three special values of IEEE 754.  The special values follow the IEEE
  rules, so a division by zero is visible in the model (in HOL \<open>x / 0 = 0\<close> on the
  reals, which would hide it).  Finite arithmetic is exact: rounding, overflow to
  infinity and the sign of zero are left out.  Every divisor of the source is converted
  from an integer, so a zero divisor is the positive zero.
\<close>

datatype double = Fin real | PInf | NInf | NaN

instantiation double :: comm_monoid_add
begin

definition zero_double :: double where
  "zero_double = Fin 0"

fun plus_double :: "double \<Rightarrow> double \<Rightarrow> double" where
  "plus_double NaN y = NaN"
| "plus_double x NaN = NaN"
| "plus_double (Fin a) (Fin b) = Fin (a + b)"
| "plus_double PInf NInf = NaN"
| "plus_double NInf PInf = NaN"
| "plus_double PInf y = PInf"
| "plus_double x PInf = PInf"
| "plus_double NInf y = NInf"
| "plus_double x NInf = NInf"

lemma plus_double_assoc: "(x + y) + z = x + (y + z)" for x y z :: double
  by (cases x; cases y; cases z; simp)

lemma plus_double_commute: "x + y = y + x" for x y :: double
  by (cases x; cases y; simp)

lemma plus_double_zero: "0 + x = x" for x :: double
  by (cases x; simp add: zero_double_def)

instance
  by standard (fact plus_double_assoc plus_double_commute plus_double_zero)+

end

fun dmul :: "double \<Rightarrow> double \<Rightarrow> double" where
  "dmul NaN y = NaN"
| "dmul x NaN = NaN"
| "dmul (Fin a) (Fin b) = Fin (a * b)"
| "dmul (Fin a) PInf = (if a = 0 then NaN else if 0 < a then PInf else NInf)"
| "dmul (Fin a) NInf = (if a = 0 then NaN else if 0 < a then NInf else PInf)"
| "dmul PInf (Fin b) = (if b = 0 then NaN else if 0 < b then PInf else NInf)"
| "dmul NInf (Fin b) = (if b = 0 then NaN else if 0 < b then NInf else PInf)"
| "dmul PInf PInf = PInf"
| "dmul PInf NInf = NInf"
| "dmul NInf PInf = NInf"
| "dmul NInf NInf = PInf"

fun ddiv :: "double \<Rightarrow> double \<Rightarrow> double" where
  "ddiv NaN y = NaN"
| "ddiv x NaN = NaN"
| "ddiv (Fin a) (Fin b) =
     (if b \<noteq> 0 then Fin (a / b)
      else if a = 0 then NaN else if 0 < a then PInf else NInf)"
| "ddiv (Fin a) PInf = Fin 0"
| "ddiv (Fin a) NInf = Fin 0"
| "ddiv PInf (Fin b) = (if 0 \<le> b then PInf else NInf)"
| "ddiv NInf (Fin b) = (if 0 \<le> b then NInf else PInf)"
| "ddiv PInf PInf = NaN"
| "ddiv PInf NInf = NaN"
| "ddiv NInf PInf = NaN"
| "ddiv NInf NInf = NaN"

text \<open>The \<open>log\<close> of \<open><cmath>\<close>: the natural logarithm.\<close>

fun dlog :: "double \<Rightarrow> double" where
  "dlog (Fin a) = (if 0 < a then Fin (ln a) else if a = 0 then NInf else NaN)"
| "dlog PInf = PInf"
| "dlog NInf = NaN"
| "dlog NaN = NaN"


text \<open>Conversion of an unsigned count (\<open>doccount\<close>, \<open>termcount\<close>) and of an \<open>int\<close>.\<close>

definition double_of_nat :: "nat \<Rightarrow> double" where
  "double_of_nat n = Fin (real n)"

definition double_of_int :: "int \<Rightarrow> double" where
  "double_of_int i = Fin (real_of_int i)"

subsection \<open>PointType: a sparse vector with a cached squared magnitude\<close>

text \<open>
  \<open>Wdf\<close> is the entry of a termlist: a term and its within-document frequency.
  The field \<open>values\<close> of the source (an unordered map from terms to weights) is
  \<open>weights\<close> here, an association list with one pair for each key: \<open>find\<close> is
  \<open>map_of\<close>, \<open>values[term] = value\<close> is \<open>AList.update\<close>, which replaces the pair of a
  present key and adds a pair for an absent one.  The order of the list stands for the
  iteration order of the hash table, which the source leaves open.
\<close>

datatype Wdf = Wdf (wdf_term: string) (wdf_wdf: nat)

record PointType =
  weights :: "(string \<times> double) list"
  termlist :: "Wdf list"
  magnitude :: double

definition contains :: "'a PointType_scheme \<Rightarrow> string \<Rightarrow> bool" where
  "contains p tname = (case map_of (weights p) tname of None \<Rightarrow> False | Some v \<Rightarrow> True)"

definition get_value :: "'a PointType_scheme \<Rightarrow> string \<Rightarrow> double" where
  "get_value p tname = (case map_of (weights p) tname of None \<Rightarrow> Fin 0 | Some v \<Rightarrow> v)"

definition get_magnitude :: "'a PointType_scheme \<Rightarrow> double" where
  "get_magnitude p = magnitude p"

definition add_value :: "'a PointType_scheme \<Rightarrow> string \<Rightarrow> double \<Rightarrow> 'a PointType_scheme" where
  "add_value p tname v =
     (case map_of (weights p) tname of
        Some old \<Rightarrow> p\<lparr>weights := AList.update tname (old + v) (weights p)\<rparr>
      | None \<Rightarrow> p\<lparr>termlist := termlist p @ [Wdf tname 1],
                  weights := AList.update tname v (weights p)\<rparr>)"

definition set_value :: "'a PointType_scheme \<Rightarrow> string \<Rightarrow> double \<Rightarrow> 'a PointType_scheme" where
  "set_value p tname v = p\<lparr>weights := AList.update tname v (weights p)\<rparr>"


text \<open>The terms stored in the weight map, in the map's iteration order.\<close>

definition stored_terms :: "'a PointType_scheme \<Rightarrow> string list" where
  "stored_terms p = map fst (weights p)"

text \<open>The mutators of a PointType, as data, and a sequence of them applied in order.\<close>

datatype point_op = SetValue string double | AddValue string double

fun apply_point_op :: "'a PointType_scheme \<Rightarrow> point_op \<Rightarrow> 'a PointType_scheme" where
  "apply_point_op p (SetValue t v) = set_value p t v"
| "apply_point_op p (AddValue t v) = add_value p t v"

definition apply_point_ops :: "'a PointType_scheme \<Rightarrow> point_op list \<Rightarrow> 'a PointType_scheme" where
  "apply_point_ops p ops = foldl apply_point_op p ops"

subsection \<open>Centroid\<close>

type_synonym Centroid = PointType

definition square :: "double \<Rightarrow> double" where
  "square v = dmul v v"

definition Centroid_divide :: "Centroid \<Rightarrow> int \<Rightarrow> Centroid" where
  "Centroid_divide c num = c\<lparr>weights := map (\<lambda>(k, v). (k, ddiv v (double_of_int num))) (weights c)\<rparr>"

definition Centroid_clear :: "Centroid \<Rightarrow> Centroid" where
  "Centroid_clear c = c\<lparr>weights := [], termlist := []\<rparr>"

definition recalc_magnitude :: "Centroid \<Rightarrow> Centroid" where
  "recalc_magnitude c = c\<lparr>magnitude := fold (\<lambda>(k, v) m. m + dmul v v) (weights c) (Fin 0)\<rparr>"

text \<open>The sum of \<open>get_value(t)\<close> squared over the stored terms.\<close>

definition sum_squares :: "'a PointType_scheme \<Rightarrow> double" where
  "sum_squares p = sum_list (map (\<lambda>t. square (get_value p t)) (stored_terms p))"

text \<open>The sum of \<open>p.get_value(t)\<close> over the points \<open>p\<close> of a list.\<close>

definition sum_values :: "'a PointType_scheme list \<Rightarrow> string \<Rightarrow> double" where
  "sum_values ps t = sum_list (map (\<lambda>p. get_value p t) ps)"

subsection \<open>Documents and Points\<close>

text \<open>
  A Document is a handle of the enclosing library.  The core reads two things from it:
  which document it is, and its terms with their within-document frequencies, in the
  order of its term iterator (\<open>termlist_begin\<close>, \<open>get_wdf\<close>).
\<close>

record Document =
  docid :: nat
  doc_terms :: "(string \<times> nat) list"

record Point = PointType +
  doc :: Document

definition Document_new :: Document where
  "Document_new = \<lparr>docid = 0, doc_terms = []\<rparr>"

definition PointType_new :: PointType where
  "PointType_new = \<lparr>weights = [], termlist = [], magnitude = Fin 0\<rparr>"

definition Point_new :: Point where
  "Point_new = \<lparr>weights = [], termlist = [], magnitude = Fin 0, doc = Document_new\<rparr>"

definition get_document :: "Point \<Rightarrow> Document" where
  "get_document p = doc p"

text \<open>
  The loops of the source over \<open>termlist_begin()\<close> .. \<open>termlist_end()\<close> visit the
  entries of the termlist in insertion order; they are folds over the list.
\<close>

definition set_to_point :: "Centroid \<Rightarrow> 'a PointType_scheme \<Rightarrow> Centroid" where
  "set_to_point c p =
     fold (\<lambda>w c. c\<lparr>termlist := termlist c @ [Wdf (wdf_term w) 1],
                    weights := AList.update (wdf_term w) (get_value p (wdf_term w)) (weights c),
                    magnitude := magnitude c
                       + dmul (get_value p (wdf_term w)) (get_value p (wdf_term w))\<rparr>)
          (termlist p) (c\<lparr>magnitude := Fin 0\<rparr>)"

subsection \<open>TermListGroup\<close>

record TermListGroup =
  termfreq :: "(string \<times> nat) list"
  docs_num :: nat

definition TermListGroup_add_document :: "TermListGroup \<Rightarrow> Document \<Rightarrow> TermListGroup" where
  "TermListGroup_add_document tlg document =
     fold (\<lambda>(tname, w) g.
             (case map_of (termfreq g) tname of
                None \<Rightarrow> g\<lparr>termfreq := AList.update tname 1 (termfreq g)\<rparr>
              | Some n \<Rightarrow> g\<lparr>termfreq := AList.update tname (n + 1) (termfreq g)\<rparr>))
          (doc_terms document) tlg"

definition get_doccount :: "TermListGroup \<Rightarrow> nat" where
  "get_doccount tlg = docs_num tlg"

text \<open>
  \<open>get_termfreq\<close> reads \<open>termfreq[tname]\<close>: for an absent term the subscript inserts the
  term with the count 0, so the group is returned too.
\<close>

definition get_termfreq :: "TermListGroup \<Rightarrow> string \<Rightarrow> nat \<times> TermListGroup" where
  "get_termfreq tlg tname =
     (case map_of (termfreq tlg) tname of
        Some n \<Rightarrow> (n, tlg)
      | None \<Rightarrow> (0, tlg\<lparr>termfreq := AList.update tname 0 (termfreq tlg)\<rparr>))"

text \<open>The document frequency a caller observes for a term.\<close>

definition termfreq_of :: "TermListGroup \<Rightarrow> string \<Rightarrow> nat" where
  "termfreq_of tlg tname = fst (get_termfreq tlg tname)"

subsection \<open>MSetDocumentSource\<close>

record MSetDocumentSource =
  mset_docs :: "Document list"
  maxitems :: nat
  src_index :: nat

datatype error =
    RangeError string int
  | UnimplementedError string
  | InvalidArgumentError
  | AssertionError
  | ReadPastEnd

definition MSetDocumentSource_new :: "Document list \<Rightarrow> MSetDocumentSource" where
  "MSetDocumentSource_new ms = \<lparr>mset_docs = ms, maxitems = length ms, src_index = 0\<rparr>"

definition MSetDocumentSource_new_max :: "Document list \<Rightarrow> nat \<Rightarrow> MSetDocumentSource" where
  "MSetDocumentSource_new_max ms mx =
     \<lparr>mset_docs = ms,
      maxitems = (if mx > length ms then length ms else mx),
      src_index = 0\<rparr>"

text \<open>\<open>mset[index++]\<close>: the subscript of an MSet beyond its size is not a document.\<close>

definition next_document :: "MSetDocumentSource \<Rightarrow> error + (Document \<times> MSetDocumentSource)" where
  "next_document s =
     (if src_index s < length (mset_docs s)
      then Inr (mset_docs s ! src_index s, s\<lparr>src_index := src_index s + 1\<rparr>)
      else Inl ReadPastEnd)"

definition MSetDocumentSource_at_end :: "MSetDocumentSource \<Rightarrow> bool" where
  "MSetDocumentSource_at_end s = (src_index s \<ge> maxitems s)"

definition MSetDocumentSource_size :: "MSetDocumentSource \<Rightarrow> nat" where
  "MSetDocumentSource_size s = length (mset_docs s)"

function add_documents_loop ::
  "TermListGroup \<Rightarrow> MSetDocumentSource \<Rightarrow> error + (TermListGroup \<times> MSetDocumentSource)" where
  "add_documents_loop tlg docs =
     (if MSetDocumentSource_at_end docs then Inr (tlg, docs)
      else (case next_document docs of
              Inl e \<Rightarrow> Inl e
            | Inr (d, docs') \<Rightarrow> add_documents_loop (TermListGroup_add_document tlg d) docs'))"
  by pat_completeness auto
termination
  by (relation "measure (\<lambda>(tlg, docs). maxitems docs - src_index docs)")
     (auto simp: MSetDocumentSource_at_end_def next_document_def split: if_splits)

definition add_documents :: "TermListGroup \<Rightarrow> MSetDocumentSource \<Rightarrow> error + TermListGroup" where
  "add_documents tlg docs =
     (case add_documents_loop tlg docs of
        Inl e \<Rightarrow> Inl e
      | Inr (tlg', docs') \<Rightarrow> Inr (tlg'\<lparr>docs_num := MSetDocumentSource_size docs'\<rparr>))"

subsection \<open>Point::initialize\<close>

text \<open>One round of the loop of \<open>Point::initialize\<close>; \<open>sz\<close> is the \<open>size\<close> read before the loop.\<close>

definition initialize_term ::
  "nat \<Rightarrow> string \<times> nat \<Rightarrow> Point \<times> TermListGroup \<Rightarrow> Point \<times> TermListGroup" where
  "initialize_term sz e s =
     (case e of (tname, w) \<Rightarrow> case s of (p, tlg) \<Rightarrow>
        let wdf = (if w < 1 then 1 else w);
            p1 = p\<lparr>termlist := termlist p @ [Wdf tname wdf]\<rparr>;
            tf = Fin 1 + dlog (double_of_nat wdf);
            (df, tlg') = get_termfreq tlg tname;
            tfreq = double_of_nat df;
            idf = dlog (ddiv (double_of_nat sz) tfreq);
            wt = dmul tf idf
        in (p1\<lparr>weights := AList.update tname wt (weights p1),
                magnitude := magnitude p1 + dmul wt wt\<rparr>, tlg'))"

definition initialize :: "Point \<Rightarrow> TermListGroup \<Rightarrow> Document \<Rightarrow> Point \<times> TermListGroup" where
  "initialize p tlg d =
     fold (initialize_term (get_doccount tlg)) (doc_terms d) (p\<lparr>doc := d\<rparr>, tlg)"

text \<open>
  The weight the specification gives for a term of within-document frequency \<open>w\<close> and
  document frequency \<open>df\<close> in a group of \<open>N\<close> documents, in double arithmetic.
\<close>

definition tfidf_weight :: "nat \<Rightarrow> nat \<Rightarrow> nat \<Rightarrow> double" where
  "tfidf_weight N df w =
     dmul (Fin 1 + dlog (double_of_nat (max w 1))) (dlog (ddiv (double_of_nat N) (double_of_nat df)))"

subsection \<open>PointTermIterator\<close>

text \<open>
  The iterators \<open>i\<close> and \<open>end\<close> point into the vector the iterator was made from; they
  are positions in \<open>it_vec\<close>.
\<close>

record PointTermIterator =
  it_vec :: "Wdf list"
  it_i :: nat
  it_end :: nat
  it_size :: nat
  it_started :: bool

definition PointTermIterator_new :: "Wdf list \<Rightarrow> PointTermIterator" where
  "PointTermIterator_new tlist =
     \<lparr>it_vec = tlist, it_i = 0, it_end = length tlist, it_size = length tlist,
      it_started = False\<rparr>"

definition get_approx_size :: "PointTermIterator \<Rightarrow> nat" where
  "get_approx_size it = it_size it"

text \<open>\<open>Assert(i != end)\<close> guards the increment; a failed assertion is an error value.\<close>

definition PointTermIterator_next :: "PointTermIterator \<Rightarrow> error + PointTermIterator" where
  "PointTermIterator_next it =
     (if \<not> it_started it then Inr (it\<lparr>it_started := True\<rparr>)
      else if it_i it = it_end it then Inl AssertionError
      else Inr (it\<lparr>it_i := it_i it + 1\<rparr>))"

definition PointTermIterator_at_end :: "PointTermIterator \<Rightarrow> bool" where
  "PointTermIterator_at_end it = (if \<not> it_started it then False else it_i it = it_end it)"

text \<open>
  \<open>skip_to\<close> steps forward until the entry at \<open>i\<close> has the term; it reads \<open>i->term\<close>
  without looking at \<open>end\<close>, so a term that is not ahead is a read past the end.
\<close>

fun skip_steps :: "Wdf list \<Rightarrow> string \<Rightarrow> nat option" where
  "skip_steps [] tname = None"
| "skip_steps (w # ws) tname =
     (if wdf_term w = tname then Some 0 else map_option Suc (skip_steps ws tname))"

definition skip_to :: "PointTermIterator \<Rightarrow> string \<Rightarrow> error + PointTermIterator" where
  "skip_to it tname =
     (case skip_steps (drop (it_i it) (it_vec it)) tname of
        None \<Rightarrow> Inl ReadPastEnd
      | Some n \<Rightarrow> Inr (it\<lparr>it_i := it_i it + n\<rparr>))"

datatype iter_op = Next | SkipTo string

fun apply_iter_op :: "PointTermIterator \<Rightarrow> iter_op \<Rightarrow> error + PointTermIterator" where
  "apply_iter_op it Next = PointTermIterator_next it"
| "apply_iter_op it (SkipTo tname) = skip_to it tname"

fun apply_iter_ops :: "PointTermIterator \<Rightarrow> iter_op list \<Rightarrow> error + PointTermIterator" where
  "apply_iter_ops it [] = Inr it"
| "apply_iter_ops it (x # xs) =
     (case apply_iter_op it x of Inl e \<Rightarrow> Inl e | Inr it' \<Rightarrow> apply_iter_ops it' xs)"

subsection \<open>Cluster\<close>

text \<open>
  Sizes, counts and indices (\<open>doccount\<close>, \<open>termcount\<close>, \<open>clusterid\<close>,
  \<open>unsigned int\<close>) are natural numbers.  Where the source passes a size as an \<open>int\<close>
  (\<open>centroid.divide(size())\<close>) the model converts with \<open>int\<close>, which is the value
  the source gets for every size below \<open>2^31\<close>.
\<close>

record Cluster =
  centroid :: Centroid
  cluster_docs :: "Point list"

definition Cluster_new :: Cluster where
  "Cluster_new = \<lparr>centroid = PointType_new, cluster_docs = []\<rparr>"

definition get_centroid :: "Cluster \<Rightarrow> Centroid" where
  "get_centroid c = centroid c"

definition set_centroid :: "Cluster \<Rightarrow> Centroid \<Rightarrow> Cluster" where
  "set_centroid c cen = c\<lparr>centroid := cen\<rparr>"

definition Cluster_size :: "Cluster \<Rightarrow> nat" where
  "Cluster_size c = length (cluster_docs c)"

definition Cluster_add_cluster :: "Cluster \<Rightarrow> Point \<Rightarrow> Cluster" where
  "Cluster_add_cluster c x = c\<lparr>cluster_docs := cluster_docs c @ [x]\<rparr>"

definition Cluster_clear :: "Cluster \<Rightarrow> Cluster" where
  "Cluster_clear c = c\<lparr>cluster_docs := []\<rparr>"

text \<open>The inner loop of \<open>recalculate\<close>: the terms of one point are added to the centroid.\<close>

definition add_point_terms :: "Point \<Rightarrow> Centroid \<Rightarrow> Centroid" where
  "add_point_terms temp cen =
     fold (\<lambda>w cen. add_value cen (wdf_term w) (get_value temp (wdf_term w))) (termlist temp) cen"

definition recalculate :: "Cluster \<Rightarrow> Cluster" where
  "recalculate c =
     (let c1 = Centroid_clear (centroid c);
          c2 = fold add_point_terms (cluster_docs c) c1;
          c3 = Centroid_divide c2 (int (Cluster_size c));
          c4 = recalc_magnitude c3
      in c\<lparr>centroid := c4\<rparr>)"

subsection \<open>ClusterSet\<close>

record ClusterSet =
  clusters :: "Cluster list"

definition ClusterSet_new :: ClusterSet where
  "ClusterSet_new = \<lparr>clusters = []\<rparr>"

definition ClusterSet_size :: "ClusterSet \<Rightarrow> nat" where
  "ClusterSet_size cs = length (clusters cs)"

text \<open>
  \<open>cluster_size\<close> and \<open>get_cluster\<close> are not \<open>const\<close> in the source; the model returns
  the ClusterSet after the call beside the result.
\<close>

definition cluster_size :: "ClusterSet \<Rightarrow> nat \<Rightarrow> (error + nat) \<times> ClusterSet" where
  "cluster_size cs cid =
     (let s = length (clusters cs)
      in if cid \<ge> s then (Inl (RangeError ''The mentioned clusterid was out of range'' 103), cs)
         else (Inr (Cluster_size (clusters cs ! cid)), cs))"

definition get_cluster :: "ClusterSet \<Rightarrow> nat \<Rightarrow> (error + Cluster) \<times> ClusterSet" where
  "get_cluster cs cid =
     (let s = length (clusters cs)
      in if cid \<ge> s then (Inl (RangeError ''The mentioned clusterid was out of range'' 103), cs)
         else (Inr (clusters cs ! cid), cs))"

definition ClusterSet_add_cluster :: "ClusterSet \<Rightarrow> Cluster \<Rightarrow> ClusterSet" where
  "ClusterSet_add_cluster cs c = cs\<lparr>clusters := clusters cs @ [c]\<rparr>"

text \<open>\<open>clusters[i].add_cluster(x)\<close>: the subscript is unchecked.\<close>

definition add_to_cluster :: "ClusterSet \<Rightarrow> Point \<Rightarrow> nat \<Rightarrow> error + ClusterSet" where
  "add_to_cluster cs x i =
     (if i < length (clusters cs)
      then Inr (cs\<lparr>clusters := (clusters cs)[i := Cluster_add_cluster (clusters cs ! i) x]\<rparr>)
      else Inl ReadPastEnd)"

definition clear_clusters :: "ClusterSet \<Rightarrow> ClusterSet" where
  "clear_clusters cs = cs\<lparr>clusters := map Cluster_clear (clusters cs)\<rparr>"

definition recalculate_centroids :: "ClusterSet \<Rightarrow> ClusterSet" where
  "recalculate_centroids cs = cs\<lparr>clusters := map recalculate (clusters cs)\<rparr>"

subsection \<open>RoundRobin\<close>

text \<open>
  Modelled from the spec: \<open>RoundRobin::cluster\<close>, which the class declaration names but
  no source file defines.  The specification gives the algorithm: create \<open>k\<close> empty
  clusters in the output set; build a TermListGroup from the MSet; for each document at
  position \<open>i\<close> of the MSet construct a Point and append it to cluster \<open>i mod k\<close>;
  compute no centroids.  For \<open>k = 0\<close> or an empty MSet it recommends an invalid-argument
  error.  An MSet is the list of its documents.
\<close>

definition TermListGroup_of :: "Document list \<Rightarrow> error + TermListGroup" where
  "TermListGroup_of ms =
     add_documents \<lparr>termfreq = [], docs_num = 0\<rparr> (MSetDocumentSource_new ms)"

fun round_robin_loop ::
  "nat \<Rightarrow> TermListGroup \<Rightarrow> (nat \<times> Document) list \<Rightarrow> ClusterSet \<Rightarrow> error + ClusterSet" where
  "round_robin_loop k tlg [] cset = Inr cset"
| "round_robin_loop k tlg ((i, d) # ds) cset =
     (case initialize Point_new tlg d of
        (x, tlg') \<Rightarrow>
          (case add_to_cluster cset x (i mod k) of
             Inl e \<Rightarrow> Inl e
           | Inr cset' \<Rightarrow> round_robin_loop k tlg' ds cset'))"

definition RoundRobin_cluster :: "nat \<Rightarrow> Document list \<Rightarrow> error + ClusterSet" where
  "RoundRobin_cluster k ms =
     (if k = 0 \<or> ms = [] then Inl InvalidArgumentError
      else (case TermListGroup_of ms of
              Inl e \<Rightarrow> Inl e
            | Inr tlg \<Rightarrow>
                round_robin_loop k tlg (enumerate 0 ms)
                  (fold (\<lambda>j cs. ClusterSet_add_cluster cs Cluster_new) [0..<k] ClusterSet_new)))"

text \<open>The documents of a cluster, in insertion order (\<open>Cluster::get_documents\<close>).\<close>

definition get_documents :: "Cluster \<Rightarrow> Document list" where
  "get_documents c = map get_document (cluster_docs c)"

subsection \<open>CosineDistance\<close>




subsection \<open>The PointType invariant\<close>

text \<open>
  The data model asks that every key of the weight map is represented once in the
  termlist that the iteration uses.  \<open>Point::initialize\<close> on a document whose term
  iterator gives each term once, and \<open>add_value\<close>, keep it.
\<close>

definition wf_point :: "'a PointType_scheme \<Rightarrow> bool" where
  "wf_point p =
     (distinct (map wdf_term (termlist p)) \<and>
      set (stored_terms p) \<subseteq> set (map wdf_term (termlist p)))"

subsection \<open>Example data\<close>

definition example_point_a :: Point where
  "example_point_a =
     \<lparr>weights = [(''x'', Fin 2), (''y'', Fin 4)], termlist = [Wdf ''x'' 1, Wdf ''y'' 2],
      magnitude = Fin 20, doc = \<lparr>docid = 1, doc_terms = [(''x'', 1), (''y'', 2)]\<rparr>\<rparr>"

definition example_point_b :: Point where
  "example_point_b =
     \<lparr>weights = [(''x'', Fin 4)], termlist = [Wdf ''x'' 3],
      magnitude = Fin 16, doc = \<lparr>docid = 2, doc_terms = [(''x'', 3)]\<rparr>\<rparr>"

definition example_cluster :: Cluster where
  "example_cluster =
     \<lparr>centroid = PointType_new, cluster_docs = [example_point_a, example_point_b]\<rparr>"

definition example_doc :: Document where
  "example_doc = \<lparr>docid = 1, doc_terms = [(''x'', 1)]\<rparr>"

definition example_tlg :: TermListGroup where
  "example_tlg = \<lparr>termfreq = [(''x'', 1)], docs_num = 2\<rparr>"

text \<open>A Point on which \<open>initialize\<close> has been called twice with the same document.\<close>

definition example_point_twice :: Point where
  "example_point_twice =
     fst (initialize (fst (initialize Point_new example_tlg example_doc))
            example_tlg example_doc)"

definition example_cluster_twice :: Cluster where
  "example_cluster_twice = \<lparr>centroid = PointType_new, cluster_docs = [example_point_twice]\<rparr>"

definition example_mset :: "Document list" where
  "example_mset =
     [\<lparr>docid = 10, doc_terms = [(''a'', 1)]\<rparr>,
      \<lparr>docid = 11, doc_terms = [(''a'', 2), (''b'', 1)]\<rparr>,
      \<lparr>docid = 12, doc_terms = [(''b'', 0)]\<rparr>]"

section \<open>Properties\<close>

subsection \<open>The cached magnitude under \<open>set_value\<close> and \<open>add_value\<close>\<close>

lemma magnitude_add_value: "magnitude (add_value p t v) = magnitude p"
  by (simp add: add_value_def split: option.splits)

lemma magnitude_set_value: "magnitude (set_value p t v) = magnitude p"
  by (simp add: set_value_def)

lemma magnitude_apply_point_op: "magnitude (apply_point_op p x) = magnitude p"
  by (cases x) (simp_all add: magnitude_add_value magnitude_set_value)

lemma magnitude_apply_point_ops: "magnitude (apply_point_ops p ops) = magnitude p"
  unfolding apply_point_ops_def
  by (induction ops arbitrary: p) (simp_all add: magnitude_apply_point_op)

lemma distinct_add_value:
  "distinct (stored_terms p) \<Longrightarrow> distinct (stored_terms (add_value p t v))"
  by (simp add: add_value_def stored_terms_def distinct_update split: option.splits)

lemma distinct_set_value:
  "distinct (stored_terms p) \<Longrightarrow> distinct (stored_terms (set_value p t v))"
  by (simp add: set_value_def stored_terms_def distinct_update)

lemma distinct_apply_point_ops:
  "distinct (stored_terms p) \<Longrightarrow> distinct (stored_terms (apply_point_ops p ops))"
  unfolding apply_point_ops_def
proof (induction ops arbitrary: p)
  case Nil
  then show ?case by simp
next
  case (Cons x ops)
  have "distinct (stored_terms (apply_point_op p x))"
    using Cons.prems by (cases x) (simp_all add: distinct_add_value distinct_set_value)
  then show ?case using Cons.IH by simp
qed

lemma fold_squares:
  "fold (\<lambda>(k, v) m. m + dmul v v) xs a = a + sum_list (map (\<lambda>(k, v). dmul v v) xs)"
  by (induction xs arbitrary: a) (auto simp: add.assoc)

lemma sum_squares_weights:
  assumes "distinct (stored_terms p)"
  shows "sum_squares p = sum_list (map (\<lambda>(k, v). dmul v v) (weights p))"
proof -
  have look: "\<And>k v. (k, v) \<in> set (weights p) \<Longrightarrow> map_of (weights p) k = Some v"
    using assms by (simp add: stored_terms_def)
  have "map (\<lambda>t. square (get_value p t)) (stored_terms p)
        = map (\<lambda>(k, v). dmul v v) (weights p)"
    by (auto simp: stored_terms_def get_value_def square_def look)
  then show ?thesis by (simp add: sum_squares_def)
qed

lemma recalc_magnitude_sum_squares:
  assumes "distinct (stored_terms c)"
  shows "magnitude (recalc_magnitude c) = sum_squares c"
proof -
  have "magnitude (recalc_magnitude c)
        = Fin 0 + sum_list (map (\<lambda>(k, v). dmul v v) (weights c))"
    by (simp add: recalc_magnitude_def fold_squares)
  then show ?thesis
    using sum_squares_weights[OF assms] by (simp add: zero_double_def[symmetric])
qed

lemma sum_squares_recalc: "sum_squares (recalc_magnitude c) = sum_squares c"
  by (simp add: sum_squares_def recalc_magnitude_def stored_terms_def get_value_def)

text \<open>
  Claim C1, as the code has it.  Neither \<open>set_value\<close> nor \<open>add_value\<close> writes the
  cached magnitude: after any sequence of them \<open>get_magnitude()\<close> returns what it
  returned before the sequence.  It is \<open>recalc_magnitude\<close> of a Centroid that makes the
  magnitude the sum of \<open>get_value(t)\<close> squared over the stored terms.  The hypothesis
  says that the weight map of the centroid has one entry for each key.
\<close>

theorem magnitude_after_mutators:
  assumes "distinct (stored_terms c)"
  shows "get_magnitude (apply_point_ops p ops) = get_magnitude p \<and>
         get_magnitude (recalc_magnitude (apply_point_ops c ops))
           = sum_squares (apply_point_ops c ops)"
  using assms
  by (simp add: get_magnitude_def magnitude_apply_point_ops
      recalc_magnitude_sum_squares distinct_apply_point_ops)

theorem magnitude_after_mutators_witness:
  "distinct (stored_terms PointType_new) \<and>
   get_magnitude (apply_point_ops PointType_new
      [AddValue ''x'' (Fin 2), SetValue ''y'' (Fin 3), AddValue ''x'' (Fin 1)]) = Fin 0 \<and>
   get_magnitude (recalc_magnitude (apply_point_ops PointType_new
      [AddValue ''x'' (Fin 2), SetValue ''y'' (Fin 3), AddValue ''x'' (Fin 1)])) = Fin 18"
proof -
  have h: "distinct (stored_terms PointType_new)"
    by (simp add: stored_terms_def PointType_new_def)
  show ?thesis
    using h magnitude_after_mutators[OF h, of PointType_new
        "[AddValue ''x'' (Fin 2), SetValue ''y'' (Fin 3), AddValue ''x'' (Fin 1)]"]
    by (simp add: apply_point_ops_def add_value_def set_value_def PointType_new_def
        sum_squares_def stored_terms_def get_value_def square_def get_magnitude_def zero_double_def)
qed

text \<open>
  Claim C1 as it is stated fails: a PointType with no term and magnitude 0 has the
  magnitude 0 after \<open>add_value("x", 1)\<close>, and after \<open>set_value("x", 1)\<close>, while the sum
  of the squared weights is 1.
\<close>

theorem magnitude_invariant_counterexample:
  "get_magnitude (apply_point_ops PointType_new [AddValue ''x'' (Fin 1)])
     \<noteq> sum_squares (apply_point_ops PointType_new [AddValue ''x'' (Fin 1)]) \<and>
   get_magnitude (apply_point_ops PointType_new [SetValue ''x'' (Fin 1)])
     \<noteq> sum_squares (apply_point_ops PointType_new [SetValue ''x'' (Fin 1)])"
  by (simp add: apply_point_ops_def add_value_def set_value_def PointType_new_def
      sum_squares_def stored_terms_def get_value_def square_def get_magnitude_def zero_double_def)

subsection \<open>\<open>Centroid::clear\<close>\<close>

text \<open>
  Claim C5, as the code has it.  \<open>Centroid::clear()\<close> empties the weight map and the
  termlist, so \<open>get_value(t)\<close> is 0.0 and \<open>contains(t)\<close> is false for every term; the
  cached magnitude is not written and keeps its value.
\<close>

theorem Centroid_clear_effect:
  "weights (Centroid_clear c) = [] \<and> termlist (Centroid_clear c) = [] \<and>
   get_magnitude (Centroid_clear c) = get_magnitude c \<and>
   get_value (Centroid_clear c) t = Fin 0 \<and> \<not> contains (Centroid_clear c) t"
  by (simp add: Centroid_clear_def get_magnitude_def get_value_def contains_def)

text \<open>
  Claim C5 as it is stated fails: a centroid with the weight 2 for \<open>x\<close> and the
  magnitude 4 still has the magnitude 4 after \<open>clear()\<close>.
\<close>

theorem Centroid_clear_magnitude_counterexample:
  "get_magnitude (Centroid_clear
      \<lparr>weights = [(''x'', Fin 2)], termlist = [Wdf ''x'' 1], magnitude = Fin 4\<rparr>) \<noteq> Fin 0"
  by (simp add: Centroid_clear_def get_magnitude_def)

subsection \<open>\<open>Centroid::divide\<close>\<close>

lemma map_of_divide:
  "map_of (map (\<lambda>(k, v). (k, f v)) xs) t = map_option f (map_of xs t)"
  by (induction xs) auto

lemma get_value_divide:
  "get_value (Centroid_divide c num) t =
     (if contains c t then ddiv (get_value c t) (double_of_int num) else Fin 0)"
  by (simp add: get_value_def contains_def Centroid_divide_def map_of_divide
      split: option.splits)

lemma contains_divide: "contains (Centroid_divide c num) t = contains c t"
  by (simp add: contains_def Centroid_divide_def map_of_divide split: option.splits)

lemma stored_terms_divide: "stored_terms (Centroid_divide c num) = stored_terms c"
  by (simp add: stored_terms_def Centroid_divide_def comp_def case_prod_beta)

text \<open>
  Claim C6.  For \<open>num \<noteq> 0\<close>, \<open>Centroid::divide(num)\<close> divides every stored weight by
  \<open>num\<close> (a finite weight \<open>w\<close> becomes \<open>w / num\<close>) and changes nothing else: the
  stored terms, the termlist and the cached magnitude keep their values.
\<close>

theorem Centroid_divide_frame:
  assumes "num \<noteq> 0"
  shows "(contains c t \<longrightarrow>
            get_value (Centroid_divide c num) t = ddiv (get_value c t) (double_of_int num)) \<and>
         (contains c t \<and> get_value c t = Fin w \<longrightarrow>
            get_value (Centroid_divide c num) t = Fin (w / real_of_int num)) \<and>
         contains (Centroid_divide c num) t = contains c t \<and>
         stored_terms (Centroid_divide c num) = stored_terms c \<and>
         termlist (Centroid_divide c num) = termlist c \<and>
         get_magnitude (Centroid_divide c num) = get_magnitude c"
  using assms
  by (simp add: get_value_divide contains_divide stored_terms_divide double_of_int_def)
     (simp add: Centroid_divide_def get_magnitude_def)

theorem Centroid_divide_frame_witness:
  "(2::int) \<noteq> 0 \<and>
   contains \<lparr>weights = [(''x'', Fin 3)], termlist = [Wdf ''x'' 1], magnitude = Fin 9\<rparr> ''x'' \<and>
   get_value (Centroid_divide
      \<lparr>weights = [(''x'', Fin 3)], termlist = [Wdf ''x'' 1], magnitude = Fin 9\<rparr> 2) ''x''
     = Fin (3 / 2) \<and>
   get_magnitude (Centroid_divide
      \<lparr>weights = [(''x'', Fin 3)], termlist = [Wdf ''x'' 1], magnitude = Fin 9\<rparr> 2) = Fin 9"
proof -
  have h: "(2::int) \<noteq> 0" by simp
  show ?thesis
    using Centroid_divide_frame[OF h,
        of "\<lparr>weights = [(''x'', Fin 3)], termlist = [Wdf ''x'' 1], magnitude = Fin 9\<rparr>" "''x''" 3]
    by (simp add: contains_def get_value_def get_magnitude_def double_of_int_def)
qed

subsection \<open>\<open>ClusterSet::clear_clusters\<close>\<close>

text \<open>
  Claim C7.  \<open>clear_clusters()\<close> keeps the number of clusters, empties the point list
  of every cluster and leaves every centroid (terms, weights, magnitude) as it was.
\<close>

theorem clear_clusters_frame:
  "ClusterSet_size (clear_clusters cs) = ClusterSet_size cs \<and>
   (\<forall>i < ClusterSet_size cs.
      cluster_docs (clusters (clear_clusters cs) ! i) = [] \<and>
      Cluster_size (clusters (clear_clusters cs) ! i) = 0 \<and>
      centroid (clusters (clear_clusters cs) ! i) = centroid (clusters cs ! i))"
  by (simp add: clear_clusters_def ClusterSet_size_def Cluster_clear_def Cluster_size_def)

theorem clear_clusters_frame_witness:
  "(0::nat) < ClusterSet_size
      \<lparr>clusters = [\<lparr>centroid = \<lparr>weights = [(''x'', Fin 3)], termlist = [Wdf ''x'' 1],
                                  magnitude = Fin 9\<rparr>,
                     cluster_docs = [Point_new]\<rparr>]\<rparr> \<and>
   cluster_docs (clusters (clear_clusters
      \<lparr>clusters = [\<lparr>centroid = \<lparr>weights = [(''x'', Fin 3)], termlist = [Wdf ''x'' 1],
                                  magnitude = Fin 9\<rparr>,
                     cluster_docs = [Point_new]\<rparr>]\<rparr>) ! 0) = [] \<and>
   centroid (clusters (clear_clusters
      \<lparr>clusters = [\<lparr>centroid = \<lparr>weights = [(''x'', Fin 3)], termlist = [Wdf ''x'' 1],
                                  magnitude = Fin 9\<rparr>,
                     cluster_docs = [Point_new]\<rparr>]\<rparr>) ! 0)
     = \<lparr>weights = [(''x'', Fin 3)], termlist = [Wdf ''x'' 1], magnitude = Fin 9\<rparr>"
  using clear_clusters_frame[of
      "\<lparr>clusters = [\<lparr>centroid = \<lparr>weights = [(''x'', Fin 3)], termlist = [Wdf ''x'' 1],
                                  magnitude = Fin 9\<rparr>,
                     cluster_docs = [Point_new]\<rparr>]\<rparr>"]
  by (simp add: ClusterSet_size_def)

subsection \<open>\<open>ClusterSet::get_cluster\<close> and \<open>cluster_size\<close>\<close>

text \<open>
  Claim C8.  \<open>get_cluster(i)\<close> and \<open>cluster_size(i)\<close> fail exactly when
  \<open>i \<ge> size()\<close>, and then with a RangeError; for \<open>i < size()\<close> they return the
  cluster at index \<open>i\<close> and its size.  The ClusterSet is the same after the call.
\<close>

theorem get_cluster_range:
  "(isl (fst (get_cluster cs i)) \<longleftrightarrow> i \<ge> ClusterSet_size cs) \<and>
   (isl (fst (cluster_size cs i)) \<longleftrightarrow> i \<ge> ClusterSet_size cs) \<and>
   (i \<ge> ClusterSet_size cs \<longrightarrow>
      (\<exists>msg code. fst (get_cluster cs i) = Inl (RangeError msg code)) \<and>
      (\<exists>msg code. fst (cluster_size cs i) = Inl (RangeError msg code))) \<and>
   (i < ClusterSet_size cs \<longrightarrow>
      fst (get_cluster cs i) = Inr (clusters cs ! i) \<and>
      fst (cluster_size cs i) = Inr (Cluster_size (clusters cs ! i))) \<and>
   snd (get_cluster cs i) = cs \<and> snd (cluster_size cs i) = cs"
  by (simp add: get_cluster_def cluster_size_def ClusterSet_size_def)

theorem get_cluster_range_witness:
  "(1::nat) \<ge> ClusterSet_size \<lparr>clusters = [Cluster_new]\<rparr> \<and>
   isl (fst (get_cluster \<lparr>clusters = [Cluster_new]\<rparr> 1)) \<and>
   (0::nat) < ClusterSet_size \<lparr>clusters = [Cluster_new]\<rparr> \<and>
   fst (get_cluster \<lparr>clusters = [Cluster_new]\<rparr> 0) = Inr Cluster_new"
  using get_cluster_range[of "\<lparr>clusters = [Cluster_new]\<rparr>" 1]
    get_cluster_range[of "\<lparr>clusters = [Cluster_new]\<rparr>" 0]
  by (simp add: ClusterSet_size_def)

subsection \<open>\<open>PointTermIterator::at_end\<close>\<close>

lemma at_end_started: "PointTermIterator_at_end it \<Longrightarrow> it_started it"
  by (simp add: PointTermIterator_at_end_def split: if_splits)

lemma started_after_op:
  "apply_iter_op it x = Inr it' \<Longrightarrow> it_started it' \<Longrightarrow> \<not> it_started it \<Longrightarrow> x = Next"
  by (cases x) (auto simp: skip_to_def split: option.splits)

lemma started_after_ops:
  "apply_iter_ops it ops = Inr it' \<Longrightarrow> it_started it' \<Longrightarrow> \<not> it_started it \<Longrightarrow> Next \<in> set ops"
proof (induction ops arbitrary: it)
  case Nil
  then show ?case by simp
next
  case (Cons x xs)
  from Cons.prems(1) obtain it1 where
    step: "apply_iter_op it x = Inr it1" and rest: "apply_iter_ops it1 xs = Inr it'"
    by (auto split: sum.splits)
  show ?case
  proof (cases "it_started it1")
    case True
    then have "x = Next" using started_after_op[OF step] Cons.prems(3) by blast
    then show ?thesis by simp
  next
    case False
    then have "Next \<in> set xs" using Cons.IH rest Cons.prems(2) by blast
    then show ?thesis by simp
  qed
qed

text \<open>
  Claim C10.  A PointTermIterator that has just been constructed is not at its end,
  whatever the termlist, the empty one too; and when \<open>at_end()\<close> is true after a
  sequence of \<open>next\<close> and \<open>skip_to\<close> calls that all returned, \<open>next\<close> is among them.
\<close>

theorem fresh_iterator_not_at_end:
  "\<not> PointTermIterator_at_end (PointTermIterator_new tlist) \<and>
   (apply_iter_ops (PointTermIterator_new tlist) ops = Inr it \<and> PointTermIterator_at_end it
      \<longrightarrow> Next \<in> set ops)"
proof -
  have fresh: "\<not> it_started (PointTermIterator_new tlist)"
    by (simp add: PointTermIterator_new_def)
  then have "\<not> PointTermIterator_at_end (PointTermIterator_new tlist)"
    using at_end_started by blast
  moreover have "apply_iter_ops (PointTermIterator_new tlist) ops = Inr it \<and>
      PointTermIterator_at_end it \<longrightarrow> Next \<in> set ops"
    using started_after_ops[OF _ _ fresh] at_end_started by blast
  ultimately show ?thesis by simp
qed

theorem fresh_iterator_not_at_end_witness:
  "\<not> PointTermIterator_at_end (PointTermIterator_new []) \<and>
   apply_iter_ops (PointTermIterator_new []) [Next]
     = Inr \<lparr>it_vec = [], it_i = 0, it_end = 0, it_size = 0, it_started = True\<rparr> \<and>
   PointTermIterator_at_end \<lparr>it_vec = [], it_i = 0, it_end = 0, it_size = 0, it_started = True\<rparr> \<and>
   Next \<in> set [Next]"
  using fresh_iterator_not_at_end[of "[]" "[Next]"
      "\<lparr>it_vec = [], it_i = 0, it_end = 0, it_size = 0, it_started = True\<rparr>"]
  by (simp add: PointTermIterator_new_def PointTermIterator_next_def PointTermIterator_at_end_def)

subsection \<open>\<open>Point::initialize\<close>\<close>

lemma termfreq_of_get_termfreq:
  "termfreq_of (snd (get_termfreq tlg t)) u = termfreq_of tlg u"
  by (simp add: termfreq_of_def get_termfreq_def update_conv' split: option.splits)

lemma docs_num_get_termfreq: "docs_num (snd (get_termfreq tlg t)) = docs_num tlg"
  by (simp add: get_termfreq_def split: option.splits)

lemma initialize_term_eq:
  "initialize_term sz (t, w) (p, tlg) =
     (p\<lparr>termlist := termlist p @ [Wdf t (max w 1)],
        weights := AList.update t (tfidf_weight sz (termfreq_of tlg t) w) (weights p),
        magnitude := magnitude p + square (tfidf_weight sz (termfreq_of tlg t) w)\<rparr>,
      snd (get_termfreq tlg t))"
proof -
  have m: "(if w < 1 then 1 else w) = max w 1" by (simp add: max_def)
  show ?thesis
    unfolding initialize_term_def Let_def m
    by (simp add: tfidf_weight_def square_def termfreq_of_def split: prod.splits)
qed

text \<open>The weight map after the loop: the last entry of a term decides.\<close>

lemma initialize_fold:
  "fold (initialize_term sz) es (p, tlg) = (p', tlg') \<Longrightarrow>
     termlist p' = termlist p @ map (\<lambda>(t, w). Wdf t (max w 1)) es \<and>
     magnitude p' = magnitude p
        + sum_list (map (\<lambda>(t, w). square (tfidf_weight sz (termfreq_of tlg t) w)) es) \<and>
     doc p' = doc p \<and>
     map_of (weights p') u =
       (case map_of (rev es) u of
          Some w \<Rightarrow> Some (tfidf_weight sz (termfreq_of tlg u) w)
        | None \<Rightarrow> map_of (weights p) u)"
proof (induction es arbitrary: p tlg)
  case Nil
  then show ?case by (simp add: zero_double_def[symmetric])
next
  case (Cons e es)
  obtain t w where e: "e = (t, w)" by (cases e)
  define p1 where "p1 = fst (initialize_term sz (t, w) (p, tlg))"
  define g1 where "g1 = snd (get_termfreq tlg t)"
  have step: "initialize_term sz (t, w) (p, tlg) = (p1, g1)"
    by (simp add: p1_def g1_def initialize_term_eq)
  have tf: "\<And>x. termfreq_of g1 x = termfreq_of tlg x"
    by (simp add: g1_def termfreq_of_get_termfreq)
  from Cons.prems have "fold (initialize_term sz) es (p1, g1) = (p', tlg')"
    by (simp add: e step)
  from Cons.IH[OF this] have ih:
    "termlist p' = termlist p1 @ map (\<lambda>(t, w). Wdf t (max w 1)) es"
    "magnitude p' = magnitude p1
        + sum_list (map (\<lambda>(t, w). square (tfidf_weight sz (termfreq_of tlg t) w)) es)"
    "doc p' = doc p1"
    "map_of (weights p') u =
       (case map_of (rev es) u of
          Some w \<Rightarrow> Some (tfidf_weight sz (termfreq_of tlg u) w)
        | None \<Rightarrow> map_of (weights p1) u)"
    by (simp_all add: tf cong: option.case_cong)
  have p1: "termlist p1 = termlist p @ [Wdf t (max w 1)]"
    "magnitude p1 = magnitude p + square (tfidf_weight sz (termfreq_of tlg t) w)"
    "doc p1 = doc p"
    "map_of (weights p1) u =
       (if u = t then Some (tfidf_weight sz (termfreq_of tlg t) w) else map_of (weights p) u)"
    by (simp_all add: p1_def initialize_term_eq update_conv')
  show ?case
    using ih p1 by (auto simp: e add.assoc map_add_def split: option.splits)
qed

lemma initialize_result:
  "termlist (fst (initialize p tlg d))
     = termlist p @ map (\<lambda>(t, w). Wdf t (max w 1)) (doc_terms d) \<and>
   magnitude (fst (initialize p tlg d)) = magnitude p
     + sum_list (map (\<lambda>(t, w). square (tfidf_weight (get_doccount tlg) (termfreq_of tlg t) w))
         (doc_terms d)) \<and>
   doc (fst (initialize p tlg d)) = d \<and>
   map_of (weights (fst (initialize p tlg d))) u =
     (case map_of (rev (doc_terms d)) u of
        Some w \<Rightarrow> Some (tfidf_weight (get_doccount tlg) (termfreq_of tlg u) w)
      | None \<Rightarrow> map_of (weights p) u)"
proof -
  obtain p' tlg' where r: "initialize p tlg d = (p', tlg')"
    by (cases "initialize p tlg d")
  then have "fold (initialize_term (get_doccount tlg)) (doc_terms d) (p\<lparr>doc := d\<rparr>, tlg)
      = (p', tlg')"
    by (simp add: initialize_def)
  from initialize_fold[OF this, of u] show ?thesis
    by (simp add: r cong: option.case_cong)
qed

lemma tfidf_weight_finite:
  assumes "1 \<le> N" and "1 \<le> df"
  shows "tfidf_weight N df w = Fin ((1 + ln (real (max w 1))) * ln (real N / real df))"
proof -
  have "0 < real N / real df" using assms by simp
  moreover have "real df \<noteq> 0" using assms by simp
  moreover have "0 < real (max w 1)" by simp
  ultimately show ?thesis
    unfolding tfidf_weight_def double_of_nat_def by simp
qed

text \<open>
  Claim C2, as the code has it.  For a document whose term iterator gives each term
  once, \<open>Point::initialize(tlg, doc)\<close> with \<open>N = tlg.get_doccount()\<close> stores for each
  entry \<open>(term, wdf)\<close> of the document the weight
  \<open>(1 + log(max(wdf, 1))) * log(N / termfreq(term))\<close> in the weight map (the real number
  of that formula when \<open>N \<ge> 1\<close> and \<open>termfreq(term) \<ge> 1\<close>), appends the entry
  \<open>(term, max(wdf, 1))\<close> to the termlist, adds the squared weight to the magnitude and
  keeps the document.
\<close>

theorem initialize_tfidf:
  assumes "distinct (map fst (doc_terms d))" and "(t, w) \<in> set (doc_terms d)"
  shows "get_value (fst (initialize p tlg d)) t
           = tfidf_weight (get_doccount tlg) (termfreq_of tlg t) w \<and>
         contains (fst (initialize p tlg d)) t \<and>
         (1 \<le> get_doccount tlg \<and> 1 \<le> termfreq_of tlg t \<longrightarrow>
            get_value (fst (initialize p tlg d)) t
              = Fin ((1 + ln (real (max w 1)))
                     * ln (real (get_doccount tlg) / real (termfreq_of tlg t)))) \<and>
         termlist (fst (initialize p tlg d))
           = termlist p @ map (\<lambda>(t, w). Wdf t (max w 1)) (doc_terms d) \<and>
         get_magnitude (fst (initialize p tlg d)) = get_magnitude p
           + sum_list (map (\<lambda>(t, w). square (tfidf_weight (get_doccount tlg) (termfreq_of tlg t) w))
               (doc_terms d)) \<and>
         get_document (fst (initialize p tlg d)) = d"
proof -
  have "distinct (map fst (rev (doc_terms d)))" using assms(1) by (simp add: rev_map[symmetric])
  moreover have "(t, w) \<in> set (rev (doc_terms d))" using assms(2) by simp
  ultimately have "map_of (rev (doc_terms d)) t = Some w" by (rule map_of_is_SomeI)
  then have look: "map_of (weights (fst (initialize p tlg d))) t
      = Some (tfidf_weight (get_doccount tlg) (termfreq_of tlg t) w)"
    using initialize_result[of p tlg d t] by simp
  then have v: "get_value (fst (initialize p tlg d)) t
      = tfidf_weight (get_doccount tlg) (termfreq_of tlg t) w"
    and c: "contains (fst (initialize p tlg d)) t"
    by (simp_all add: get_value_def contains_def)
  show ?thesis
    using v c initialize_result[of p tlg d t] tfidf_weight_finite
    by (simp add: get_magnitude_def get_document_def)
qed

theorem initialize_tfidf_witness:
  "distinct (map fst (doc_terms \<lparr>docid = 7, doc_terms = [(''x'', 0), (''y'', 3)]\<rparr>)) \<and>
   (''y'', 3) \<in> set (doc_terms \<lparr>docid = 7, doc_terms = [(''x'', 0), (''y'', 3)]\<rparr>) \<and>
   1 \<le> get_doccount \<lparr>termfreq = [(''x'', 2), (''y'', 1)], docs_num = 2\<rparr> \<and>
   1 \<le> termfreq_of \<lparr>termfreq = [(''x'', 2), (''y'', 1)], docs_num = 2\<rparr> ''y'' \<and>
   get_value (fst (initialize Point_new \<lparr>termfreq = [(''x'', 2), (''y'', 1)], docs_num = 2\<rparr>
        \<lparr>docid = 7, doc_terms = [(''x'', 0), (''y'', 3)]\<rparr>)) ''y''
     = Fin ((1 + ln 3) * ln 2) \<and>
   termlist (fst (initialize Point_new \<lparr>termfreq = [(''x'', 2), (''y'', 1)], docs_num = 2\<rparr>
        \<lparr>docid = 7, doc_terms = [(''x'', 0), (''y'', 3)]\<rparr>))
     = [Wdf ''x'' 1, Wdf ''y'' 3]"
proof -
  have h1: "distinct (map fst (doc_terms \<lparr>docid = 7, doc_terms = [(''x'', 0), (''y'', 3)]\<rparr>))"
    by simp
  have h2: "(''y'', 3) \<in> set (doc_terms \<lparr>docid = 7, doc_terms = [(''x'', 0), (''y'', 3)]\<rparr>)"
    by simp
  show ?thesis
    using h1 initialize_tfidf[OF h1 h2, of Point_new
        "\<lparr>termfreq = [(''x'', 2), (''y'', 1)], docs_num = 2\<rparr>"]
    by (simp add: get_doccount_def termfreq_of_def get_termfreq_def Point_new_def
        tfidf_weight_def double_of_nat_def)
qed

text \<open>
  Claim C2 as it is stated fails: for a document with the term \<open>x\<close> of within-document
  frequency 2 the termlist gets the entry \<open>(x, 2)\<close>, not \<open>(x, 1)\<close>.
\<close>

theorem initialize_termlist_counterexample:
  "termlist (fst (initialize Point_new \<lparr>termfreq = [(''x'', 1)], docs_num = 1\<rparr>
        \<lparr>docid = 1, doc_terms = [(''x'', 2)]\<rparr>))
     \<noteq> termlist Point_new @ [Wdf ''x'' 1]"
  by (simp add: initialize_def initialize_term_def get_termfreq_def Point_new_def
      get_doccount_def Let_def)

subsection \<open>Division by zero\<close>


















subsection \<open>\<open>Cluster::recalculate\<close>\<close>

lemma get_value_add_value:
  "get_value (add_value c t v) u = (if u = t then get_value c t + v else get_value c u)"
  by (simp add: get_value_def add_value_def update_conv' zero_double_def[symmetric]
      split: option.splits)

lemma contains_add_value: "contains (add_value c t v) u = (u = t \<or> contains c u)"
  by (auto simp: contains_def add_value_def update_conv' split: option.splits)

lemma add_terms_fold:
  assumes "distinct (map wdf_term ws)"
  shows "get_value (fold (\<lambda>w cen. add_value cen (wdf_term w) (g (wdf_term w))) ws cen) u
           = (if u \<in> wdf_term ` set ws then get_value cen u + g u else get_value cen u) \<and>
         contains (fold (\<lambda>w cen. add_value cen (wdf_term w) (g (wdf_term w))) ws cen) u
           = (u \<in> wdf_term ` set ws \<or> contains cen u) \<and>
         (distinct (stored_terms cen) \<longrightarrow>
            distinct (stored_terms
              (fold (\<lambda>w cen. add_value cen (wdf_term w) (g (wdf_term w))) ws cen)))"
  using assms
proof (induction ws arbitrary: cen)
  case Nil
  then show ?case by simp
next
  case (Cons w ws)
  then have d: "distinct (map wdf_term ws)" and n: "wdf_term w \<notin> wdf_term ` set ws"
    by auto
  show ?case
    using Cons.IH[OF d, of "add_value cen (wdf_term w) (g (wdf_term w))"] n
    by (auto simp: get_value_add_value contains_add_value distinct_add_value)
qed

lemma get_value_absent:
  assumes "wf_point p" and "u \<notin> wdf_term ` set (termlist p)"
  shows "get_value p u = 0"
proof -
  have "u \<notin> fst ` set (weights p)"
    using assms by (auto simp: wf_point_def stored_terms_def)
  then have "map_of (weights p) u = None" by (simp add: map_of_eq_None_iff)
  then show ?thesis by (simp add: get_value_def zero_double_def)
qed

lemma add_point_terms_effect:
  assumes "wf_point p"
  shows "get_value (add_point_terms p cen) u = get_value cen u + get_value p u \<and>
         contains (add_point_terms p cen) u
           = (u \<in> wdf_term ` set (termlist p) \<or> contains cen u) \<and>
         (distinct (stored_terms cen) \<longrightarrow> distinct (stored_terms (add_point_terms p cen)))"
proof -
  have d: "distinct (map wdf_term (termlist p))" using assms by (simp add: wf_point_def)
  show ?thesis
    using add_terms_fold[OF d, of "get_value p" cen u] get_value_absent[OF assms, of u]
    by (auto simp: add_point_terms_def)
qed

lemma contains_fold_add_point_terms:
  assumes "\<forall>p \<in> set ps. wf_point p"
  shows "contains (fold add_point_terms ps cen) u
           = ((\<exists>p \<in> set ps. u \<in> wdf_term ` set (termlist p)) \<or> contains cen u)"
  using assms
proof (induction ps arbitrary: cen)
  case Nil
  then show ?case by simp
next
  case (Cons p ps)
  then have wp: "wf_point p" and rest: "\<forall>p \<in> set ps. wf_point p" by auto
  show ?case
    using Cons.IH[OF rest, of "add_point_terms p cen"] add_point_terms_effect[OF wp, of cen u]
    by auto
qed

lemma fold_add_point_terms:
  assumes "\<forall>p \<in> set ps. wf_point p"
  shows "get_value (fold add_point_terms ps cen) u = get_value cen u + sum_values ps u \<and>
         (distinct (stored_terms cen) \<longrightarrow>
            distinct (stored_terms (fold add_point_terms ps cen)))"
  using assms
proof (induction ps arbitrary: cen)
  case Nil
  then show ?case by (simp add: sum_values_def)
next
  case (Cons p ps)
  then have wp: "wf_point p" and rest: "\<forall>p \<in> set ps. wf_point p" by auto
  show ?case
    using Cons.IH[OF rest, of "add_point_terms p cen"] add_point_terms_effect[OF wp, of cen u]
    by (simp add: add.assoc sum_values_def)
qed

text \<open>
  The termlist of a centroid built by \<open>add_value\<close> alone lists the stored terms, each
  with the within-document frequency 1.
\<close>

lemma termlist_add_value:
  assumes "termlist c = map (\<lambda>t. Wdf t 1) (stored_terms c)"
  shows "termlist (add_value c t v) = map (\<lambda>t. Wdf t 1) (stored_terms (add_value c t v))"
proof (cases "map_of (weights c) t")
  case None
  then have "t \<notin> set (map fst (weights c))" by (simp add: map_of_eq_None_iff)
  then show ?thesis
    using assms None by (simp add: add_value_def stored_terms_def update_keys)
next
  case (Some old)
  then have "t \<in> set (map fst (weights c))"
    using map_of_eq_None_iff[of "weights c" t] by simp
  then show ?thesis
    using assms Some by (simp add: add_value_def stored_terms_def update_keys)
qed

lemma termlist_add_point_terms:
  assumes "termlist cen = map (\<lambda>t. Wdf t 1) (stored_terms cen)"
  shows "termlist (add_point_terms p cen)
           = map (\<lambda>t. Wdf t 1) (stored_terms (add_point_terms p cen))"
proof -
  have "termlist (fold (\<lambda>w cen. add_value cen (wdf_term w) (g (wdf_term w))) ws cen)
      = map (\<lambda>t. Wdf t 1)
          (stored_terms (fold (\<lambda>w cen. add_value cen (wdf_term w) (g (wdf_term w))) ws cen))"
    if "termlist cen = map (\<lambda>t. Wdf t 1) (stored_terms cen)" for ws g and cen :: Centroid
    using that
  proof (induction ws arbitrary: cen)
    case Nil
    then show ?case by simp
  next
    case (Cons w ws)
    show ?case
      using Cons.IH[OF termlist_add_value[OF Cons.prems, of "wdf_term w" "g (wdf_term w)"]]
      by simp
  qed
  from this[OF assms] show ?thesis by (simp add: add_point_terms_def)
qed

lemma termlist_fold_add_point_terms:
  assumes "termlist cen = map (\<lambda>t. Wdf t 1) (stored_terms cen)"
  shows "termlist (fold add_point_terms ps cen)
           = map (\<lambda>t. Wdf t 1) (stored_terms (fold add_point_terms ps cen))"
  using assms
proof (induction ps arbitrary: cen)
  case Nil
  then show ?case by simp
next
  case (Cons p ps)
  show ?case
    using Cons.IH[OF termlist_add_point_terms[OF Cons.prems, of p]] by simp
qed

text \<open>
  A Point made by \<open>Point::initialize\<close> from a document whose term iterator gives each
  term once satisfies the PointType invariant.
\<close>

lemma wf_point_initialize:
  assumes "distinct (map fst (doc_terms d))"
  shows "wf_point (fst (initialize Point_new tlg d))"
proof -
  have tl: "map wdf_term (termlist (fst (initialize Point_new tlg d))) = map fst (doc_terms d)"
    using initialize_result[of Point_new tlg d]
    by (simp add: Point_new_def comp_def case_prod_beta)
  have "u \<in> fst ` set (doc_terms d)"
    if "u \<in> set (stored_terms (fst (initialize Point_new tlg d)))" for u
  proof -
    from that have "map_of (weights (fst (initialize Point_new tlg d))) u \<noteq> None"
      by (simp add: stored_terms_def map_of_eq_None_iff)
    then have "map_of (rev (doc_terms d)) u \<noteq> None"
      using initialize_result[of Point_new tlg d u]
      by (auto simp: Point_new_def split: option.splits)
    then show ?thesis by (simp add: map_of_eq_None_iff)
  qed
  then show ?thesis
    using assms tl by (auto simp: wf_point_def)
qed

text \<open>
  Claim C4, as the code has it.  \<open>recalculate()\<close> walks the termlist of each point, so
  it gives the mean for the points that satisfy the PointType invariant of the data
  model: the terms of the termlist are pairwise different and every key of the weight
  map is among them.  For a cluster with at least one point, all of them such points:
  after \<open>recalculate()\<close> the centroid holds exactly the terms of the points' termlists,
  each once and with the frequency 1 in its own termlist; the weight of every term
  present in the centroid is the sum of the points' weights for the term divided by the
  number of points; the centroid's magnitude is the sum of its squared weights; the
  points are not changed.
\<close>

theorem recalculate_mean:
  assumes "0 < Cluster_size c" and "\<forall>p \<in> set (cluster_docs c). wf_point p"
  shows "contains (get_centroid (recalculate c)) t
           = (\<exists>p \<in> set (cluster_docs c). t \<in> wdf_term ` set (termlist p)) \<and>
         (contains (get_centroid (recalculate c)) t \<longrightarrow>
            get_value (get_centroid (recalculate c)) t
              = ddiv (sum_values (cluster_docs c) t) (double_of_nat (Cluster_size c))) \<and>
         distinct (stored_terms (get_centroid (recalculate c))) \<and>
         termlist (get_centroid (recalculate c))
           = map (\<lambda>t. Wdf t 1) (stored_terms (get_centroid (recalculate c))) \<and>
         get_magnitude (get_centroid (recalculate c))
           = sum_squares (get_centroid (recalculate c)) \<and>
         cluster_docs (recalculate c) = cluster_docs c"
proof -
  define c1 where "c1 = Centroid_clear (centroid c)"
  define c2 where "c2 = fold add_point_terms (cluster_docs c) c1"
  define c3 where "c3 = Centroid_divide c2 (int (Cluster_size c))"
  have r: "recalculate c = c\<lparr>centroid := recalc_magnitude c3\<rparr>"
    by (simp add: recalculate_def c1_def c2_def c3_def)
  have c1: "get_value c1 t = 0" "distinct (stored_terms c1)" "\<not> contains c1 t"
    "termlist c1 = map (\<lambda>t. Wdf t 1) (stored_terms c1)"
    by (simp_all add: c1_def Centroid_clear_def get_value_def stored_terms_def zero_double_def
        contains_def)
  have c2: "get_value c2 t = sum_values (cluster_docs c) t"
    "distinct (stored_terms c2)"
    using fold_add_point_terms[OF assms(2), of c1 t] c1 by (simp_all add: c2_def)
  have k2: "contains c2 t = (\<exists>p \<in> set (cluster_docs c). t \<in> wdf_term ` set (termlist p))"
    using contains_fold_add_point_terms[OF assms(2), of c1 t] c1(3) by (simp add: c2_def)
  have t2: "termlist c2 = map (\<lambda>t. Wdf t 1) (stored_terms c2)"
    unfolding c2_def by (rule termlist_fold_add_point_terms[OF c1(4)])
  have s3: "stored_terms c3 = stored_terms c2" "termlist c3 = termlist c2"
    by (simp_all add: c3_def stored_terms_divide) (simp add: Centroid_divide_def)
  have d3: "distinct (stored_terms c3)"
    using c2(2) s3 by simp
  have v: "get_value (recalc_magnitude c3) t = get_value c3 t"
    "contains (recalc_magnitude c3) t = contains c3 t"
    "stored_terms (recalc_magnitude c3) = stored_terms c3"
    "termlist (recalc_magnitude c3) = termlist c3"
    by (simp_all add: recalc_magnitude_def get_value_def contains_def stored_terms_def)
  have k3: "contains c3 t = contains c2 t"
    by (simp add: c3_def contains_divide)
  have "contains c3 t \<longrightarrow> get_value c3 t
      = ddiv (sum_values (cluster_docs c) t) (double_of_nat (Cluster_size c))"
    using c2(1)
    by (simp add: c3_def get_value_divide contains_divide double_of_int_def double_of_nat_def)
  moreover have "magnitude (recalc_magnitude c3) = sum_squares (recalc_magnitude c3)"
    using recalc_magnitude_sum_squares[OF d3] by (simp add: sum_squares_recalc)
  ultimately show ?thesis
    using k2 k3 t2 s3 d3 by (simp add: r v get_centroid_def get_magnitude_def)
qed

theorem recalculate_mean_witness:
  "0 < Cluster_size example_cluster \<and>
   wf_point example_point_a \<and> wf_point example_point_b \<and>
   contains (get_centroid (recalculate example_cluster)) ''x'' \<and>
   contains (get_centroid (recalculate example_cluster)) ''y'' \<and>
   \<not> contains (get_centroid (recalculate example_cluster)) ''z'' \<and>
   get_value (get_centroid (recalculate example_cluster)) ''x'' = Fin 3 \<and>
   get_value (get_centroid (recalculate example_cluster)) ''y'' = Fin 2 \<and>
   termlist (get_centroid (recalculate example_cluster)) = [Wdf ''x'' 1, Wdf ''y'' 1] \<and>
   get_magnitude (get_centroid (recalculate example_cluster)) = Fin 13"
proof -
  have h1: "0 < Cluster_size example_cluster"
    by (simp add: Cluster_size_def example_cluster_def)
  have h2: "\<forall>p \<in> set (cluster_docs example_cluster). wf_point p"
    by (simp add: example_cluster_def example_point_a_def example_point_b_def wf_point_def
        stored_terms_def)
  have c: "centroid (recalculate example_cluster) =
      \<lparr>weights = [(''x'', Fin 3), (''y'', Fin 2)], termlist = [Wdf ''x'' 1, Wdf ''y'' 1],
       magnitude = Fin 13\<rparr>"
    by (simp add: recalculate_def example_cluster_def example_point_a_def example_point_b_def
        Centroid_clear_def add_point_terms_def add_value_def get_value_def Centroid_divide_def
        recalc_magnitude_def Cluster_size_def PointType_new_def double_of_int_def)
  have h3: "wf_point example_point_a \<and> wf_point example_point_b"
    using h2 by (simp add: example_cluster_def)
  show ?thesis
    using h1 h3 recalculate_mean[OF h1 h2, of "''x''"] recalculate_mean[OF h1 h2, of "''y''"]
      recalculate_mean[OF h1 h2, of "''z''"]
    by (simp add: c get_centroid_def contains_def get_value_def get_magnitude_def
        sum_squares_def stored_terms_def square_def)
qed

text \<open>
  Claim C4 as it is stated fails.  \<open>Point::initialize\<close> is public and appends to the
  termlist at every call: a Point initialised twice from the same document, with the one
  term \<open>x\<close> of weight \<open>ln 2\<close>, has \<open>x\<close> twice in its termlist.  For the cluster of this
  one point \<open>recalculate()\<close> adds the weight twice: the centroid has \<open>2 ln 2\<close> for
  \<open>x\<close>, while the sum of \<open>get_value(x)\<close> over the points divided by the size is \<open>ln 2\<close>.
\<close>

theorem recalculate_mean_counterexample:
  "0 < Cluster_size example_cluster_twice \<and>
   get_value example_point_twice ''x'' = Fin (ln 2) \<and>
   contains (get_centroid (recalculate example_cluster_twice)) ''x'' \<and>
   get_value (get_centroid (recalculate example_cluster_twice)) ''x'' = Fin (2 * ln 2) \<and>
   ddiv (sum_values (cluster_docs example_cluster_twice) ''x'')
        (double_of_nat (Cluster_size example_cluster_twice)) = Fin (ln 2) \<and>
   get_value (get_centroid (recalculate example_cluster_twice)) ''x''
     \<noteq> ddiv (sum_values (cluster_docs example_cluster_twice) ''x'')
          (double_of_nat (Cluster_size example_cluster_twice))"
proof -
  have p: "example_point_twice =
      \<lparr>weights = [(''x'', Fin (ln 2))], termlist = [Wdf ''x'' 1, Wdf ''x'' 1],
       magnitude = Fin (ln 2 * ln 2 + ln 2 * ln 2), doc = example_doc\<rparr>"
    by (simp add: example_point_twice_def example_doc_def example_tlg_def initialize_def
        initialize_term_def get_termfreq_def get_doccount_def Point_new_def Let_def
        double_of_nat_def)
  have c: "centroid (recalculate example_cluster_twice) =
      \<lparr>weights = [(''x'', Fin (2 * ln 2))], termlist = [Wdf ''x'' 1],
       magnitude = Fin (2 * ln 2 * (2 * ln 2))\<rparr>"
    by (simp add: recalculate_def example_cluster_twice_def p
        Centroid_clear_def add_point_terms_def add_value_def get_value_def Centroid_divide_def
        recalc_magnitude_def Cluster_size_def PointType_new_def double_of_int_def)
  have s: "ddiv (sum_values (cluster_docs example_cluster_twice) ''x'')
        (double_of_nat (Cluster_size example_cluster_twice)) = Fin (ln 2)"
    by (simp add: example_cluster_twice_def p sum_values_def get_value_def Cluster_size_def
        double_of_nat_def zero_double_def)
  have "ln (2::real) \<noteq> 0" by simp
  then have n: "(2::real) * ln 2 \<noteq> ln 2" by simp
  show ?thesis
    using n by (simp add: c s get_centroid_def contains_def get_value_def)
       (simp add: example_cluster_twice_def p Cluster_size_def get_value_def)
qed

subsection \<open>RoundRobin\<close>

lemma doc_initialize_term: "doc (fst (initialize_term sz e (p, tlg))) = doc p"
  by (cases e) (simp add: initialize_term_def Let_def split: prod.splits)

lemma doc_initialize_fold: "doc (fst (fold (initialize_term sz) es s)) = doc (fst s)"
proof (induction es arbitrary: s)
  case Nil
  then show ?case by simp
next
  case (Cons e es)
  obtain p tlg where s: "s = (p, tlg)" by (cases s)
  show ?case using Cons.IH[of "initialize_term sz e s"] by (simp add: s doc_initialize_term)
qed

lemma get_document_initialize: "get_document (fst (initialize p tlg d)) = d"
  by (simp add: get_document_def initialize_def doc_initialize_fold)

lemma add_documents_loop_returns:
  "maxitems s \<le> length (mset_docs s) \<Longrightarrow> \<exists>r. add_documents_loop tlg s = Inr r"
proof (induction tlg s rule: add_documents_loop.induct)
  case (1 tlg docs)
  show ?case
  proof (cases "MSetDocumentSource_at_end docs")
    case True
    then show ?thesis by (subst add_documents_loop.simps) simp
  next
    case False
    then have lt: "src_index docs < length (mset_docs docs)"
      using "1.prems" by (simp add: MSetDocumentSource_at_end_def)
    define d where "d = mset_docs docs ! src_index docs"
    define docs' where "docs' = docs\<lparr>src_index := src_index docs + 1\<rparr>"
    have nd: "next_document docs = Inr (d, docs')"
      using lt by (simp add: next_document_def d_def docs'_def)
    have "maxitems docs' \<le> length (mset_docs docs')"
      using "1.prems" by (simp add: docs'_def)
    from "1.IH"[OF False nd refl this]
    obtain r where "add_documents_loop (TermListGroup_add_document tlg d) docs' = Inr r"
      by blast
    then show ?thesis
      using False nd by (subst add_documents_loop.simps) simp
  qed
qed

lemma TermListGroup_of_returns: "\<exists>tlg. TermListGroup_of ms = Inr tlg"
proof -
  have "maxitems (MSetDocumentSource_new ms) \<le> length (mset_docs (MSetDocumentSource_new ms))"
    by (simp add: MSetDocumentSource_new_def)
  from add_documents_loop_returns[OF this]
  obtain r where "add_documents_loop \<lparr>termfreq = [], docs_num = 0\<rparr> (MSetDocumentSource_new ms)
      = Inr r"
    by blast
  then show ?thesis
    by (cases r) (simp add: TermListGroup_of_def add_documents_def)
qed

lemma clusters_fold_add_cluster:
  "clusters (fold (\<lambda>j cs. ClusterSet_add_cluster cs c) xs cs0)
     = clusters cs0 @ replicate (length xs) c"
  by (induction xs arbitrary: cs0)
     (simp_all add: ClusterSet_add_cluster_def replicate_app_Cons_same)

lemma add_to_cluster_effect:
  assumes "i < length (clusters cs)"
  shows "\<exists>cs'. add_to_cluster cs x i = Inr cs' \<and> length (clusters cs') = length (clusters cs) \<and>
           (\<forall>j < length (clusters cs).
              get_documents (clusters cs' ! j)
                = get_documents (clusters cs ! j) @ (if j = i then [get_document x] else []))"
  using assms
  by (simp add: add_to_cluster_def get_documents_def Cluster_add_cluster_def nth_list_update)

lemma round_robin_loop_effect:
  assumes "length (clusters cs) = k" and "0 < k"
  shows "\<exists>cs'. round_robin_loop k tlg (enumerate n ds) cs = Inr cs' \<and>
           length (clusters cs') = k \<and>
           (\<forall>j < k. get_documents (clusters cs' ! j)
                = get_documents (clusters cs ! j)
                  @ map snd (filter (\<lambda>(i, d). i mod k = j) (enumerate n ds)))"
  using assms(1)
proof (induction ds arbitrary: n cs tlg)
  case Nil
  then show ?case by simp
next
  case (Cons d ds)
  obtain x tlg' where init: "initialize Point_new tlg d = (x, tlg')"
    by (cases "initialize Point_new tlg d")
  then have dx: "get_document x = d"
    using get_document_initialize[of Point_new tlg d] by simp
  have "n mod k < length (clusters cs)" using Cons.prems assms(2) by simp
  from add_to_cluster_effect[OF this, of x]
  obtain cs1 where add: "add_to_cluster cs x (n mod k) = Inr cs1"
    and len1: "length (clusters cs1) = k"
    and docs1: "\<forall>j < k. get_documents (clusters cs1 ! j)
        = get_documents (clusters cs ! j) @ (if j = n mod k then [d] else [])"
    using Cons.prems dx by auto
  from Cons.IH[OF len1, of tlg' "Suc n"]
  obtain cs' where loop: "round_robin_loop k tlg' (enumerate (Suc n) ds) cs1 = Inr cs'"
    and len': "length (clusters cs') = k"
    and docs': "\<forall>j < k. get_documents (clusters cs' ! j)
        = get_documents (clusters cs1 ! j)
          @ map snd (filter (\<lambda>(i, d). i mod k = j) (enumerate (Suc n) ds))"
    by blast
  have "round_robin_loop k tlg (enumerate n (d # ds)) cs = Inr cs'"
    by (simp add: init add loop)
  moreover have "\<forall>j < k. get_documents (clusters cs' ! j)
      = get_documents (clusters cs ! j)
        @ map snd (filter (\<lambda>(i, d). i mod k = j) (enumerate n (d # ds)))"
    using docs1 docs' by auto
  ultimately show ?case using len' by blast
qed

text \<open>
  Claim C9.  For a non-empty MSet and \<open>k \<ge> 1\<close>, \<open>RoundRobin(k).cluster(mset)\<close> returns
  a ClusterSet of \<open>k\<close> clusters; cluster \<open>j\<close> holds the documents at the MSet indices
  \<open>i\<close> with \<open>i mod k = j\<close>, in order.  So the document at index \<open>i\<close> is in cluster
  \<open>i mod k\<close>, and, the documents of an MSet being distinct, in no other cluster.
\<close>

theorem RoundRobin_partition:
  assumes "ms \<noteq> []" and "1 \<le> k"
  shows "\<exists>cs. RoundRobin_cluster k ms = Inr cs \<and> ClusterSet_size cs = k \<and>
           (\<forall>j < k. get_documents (clusters cs ! j)
                = map snd (filter (\<lambda>(i, d). i mod k = j) (enumerate 0 ms))) \<and>
           (\<forall>i < length ms.
              ms ! i \<in> set (get_documents (clusters cs ! (i mod k))) \<and>
              (distinct ms \<longrightarrow>
                 (\<forall>j < k. j \<noteq> i mod k \<longrightarrow> ms ! i \<notin> set (get_documents (clusters cs ! j)))))"
proof -
  obtain tlg where tlg: "TermListGroup_of ms = Inr tlg"
    using TermListGroup_of_returns by blast
  define cs0 where
    "cs0 = fold (\<lambda>j cs. ClusterSet_add_cluster cs Cluster_new) [0..<k] ClusterSet_new"
  have cl0: "clusters cs0 = replicate k Cluster_new"
    by (simp add: cs0_def clusters_fold_add_cluster ClusterSet_new_def)
  then have len0: "length (clusters cs0) = k" by simp
  have k: "0 < k" using assms(2) by simp
  from round_robin_loop_effect[OF len0 k, of tlg 0 ms]
  obtain cs where loop: "round_robin_loop k tlg (enumerate 0 ms) cs0 = Inr cs"
    and len: "length (clusters cs) = k"
    and docs: "\<forall>j < k. get_documents (clusters cs ! j)
        = get_documents (clusters cs0 ! j)
          @ map snd (filter (\<lambda>(i, d). i mod k = j) (enumerate 0 ms))"
    by blast
  have res: "RoundRobin_cluster k ms = Inr cs"
    using assms k loop[unfolded cs0_def] by (simp add: RoundRobin_cluster_def tlg)
  have docs': "\<forall>j < k. get_documents (clusters cs ! j)
      = map snd (filter (\<lambda>(i, d). i mod k = j) (enumerate 0 ms))"
    using docs by (simp add: cl0 get_documents_def Cluster_new_def)
  have mem: "ms ! i \<in> set (get_documents (clusters cs ! (i mod k)))" if "i < length ms" for i
  proof -
    have "(i, ms ! i) \<in> set (enumerate 0 ms)" using that by (simp add: in_set_enumerate_eq)
    then have "(i, ms ! i) \<in> set (filter (\<lambda>(i', d). i' mod k = i mod k) (enumerate 0 ms))"
      by simp
    then have "ms ! i \<in> set (map snd (filter (\<lambda>(i', d). i' mod k = i mod k) (enumerate 0 ms)))"
      by force
    then show ?thesis using docs' k by simp
  qed
  have nomem: "ms ! i \<notin> set (get_documents (clusters cs ! j))"
    if "i < length ms" "distinct ms" "j < k" "j \<noteq> i mod k" for i j
  proof
    assume "ms ! i \<in> set (get_documents (clusters cs ! j))"
    then have "ms ! i \<in> set (map snd (filter (\<lambda>(i', d). i' mod k = j) (enumerate 0 ms)))"
      using docs' that(3) by simp
    then obtain i' where "(i', ms ! i) \<in> set (enumerate 0 ms)" and m: "i' mod k = j"
      by auto
    then have "i' < length ms" "ms ! i' = ms ! i" by (simp_all add: in_set_enumerate_eq)
    then have "i' = i" using that(1,2) by (simp add: nth_eq_iff_index_eq)
    then show False using m that(4) by simp
  qed
  show ?thesis
    using res len docs' mem nomem by (auto simp: ClusterSet_size_def)
qed

theorem RoundRobin_partition_witness:
  "example_mset \<noteq> [] \<and> (1::nat) \<le> 2 \<and> distinct example_mset \<and>
   (\<exists>cs. RoundRobin_cluster 2 example_mset = Inr cs \<and> ClusterSet_size cs = 2 \<and>
      get_documents (clusters cs ! 0) = [example_mset ! 0, example_mset ! 2] \<and>
      get_documents (clusters cs ! 1) = [example_mset ! 1] \<and>
      example_mset ! 2 \<notin> set (get_documents (clusters cs ! 1)))"
proof -
  have h1: "example_mset \<noteq> []" by (simp add: example_mset_def)
  have h2: "(1::nat) \<le> 2" by simp
  have h3: "distinct example_mset" by (simp add: example_mset_def)
  from RoundRobin_partition[OF h1 h2]
  obtain cs where r: "RoundRobin_cluster 2 example_mset = Inr cs" "ClusterSet_size cs = 2"
    and d: "\<forall>j < 2. get_documents (clusters cs ! j)
        = map snd (filter (\<lambda>(i, d). i mod 2 = j) (enumerate 0 example_mset))"
    by blast
  have "get_documents (clusters cs ! 0) = [example_mset ! 0, example_mset ! 2]"
    using d by (simp add: example_mset_def)
  moreover have "get_documents (clusters cs ! 1) = [example_mset ! 1]"
    using d by (simp add: example_mset_def)
  ultimately show ?thesis
    using h1 h3 r by (auto simp: example_mset_def)
qed

end
